theory Spec2Isabelle
  imports Main "HOL-Library.Word"
begin

section \<open>The Lance file format adapter (cpp/src/lance/arrow/file_lance.cc)\<close>

text \<open>
  The adapter plugs the Lance reader and writer into Arrow's dataset framework. Its
  methods are embedded below in the order of the source file. Arrow's own classes and
  the classes of \<^verbatim>\<open>lance/io\<close> and \<^verbatim>\<open>lance/format\<close> that the adapter
  only calls are kept as small value types; what they compute is either a parameter
  (record \<open>Env\<close>) or, where stated, modelled from the design document.
\<close>

subsection \<open>Arrow value types\<close>

text \<open>
  \<^verbatim>\<open>arrow::Status\<close>: success, or an error code with its message.
  \<^verbatim>\<open>arrow::Result<T>\<close> is \<open>Status + T\<close>: \<open>Inl\<close> carries the failing status,
  \<open>Inr\<close> the value.
\<close>

datatype Status = OK | Invalid string | IOError string

type_synonym bytes = "8 word list"

datatype FileSource = FileSource (path: string)

datatype RandomAccessFile = RandomAccessFile (contents: bytes)

datatype OutputStream = OutputStream (written: bytes)

datatype FileLocator = FileLocator (locator_path: string)

datatype ArrowField =
  ArrowField (arrow_name: string) (arrow_type: string) (arrow_nullable: bool)
    (arrow_children: "ArrowField list")

type_synonym ArrowSchema = "ArrowField list"

text \<open>The identity of a thread pool object.\<close>

datatype ThreadPool = ThreadPool (pool_id: nat)

text \<open>\<^verbatim>\<open>arrow::dataset::ScanOptions\<close>: projected columns, filter, batch size.\<close>

record ScanOptions =
  projected_columns :: "string list"
  scan_filter :: "string option"
  scan_batch_size :: nat

record FileFragment =
  source :: FileSource

subsection \<open>Lance schema and manifest\<close>

datatype Field =
  Field (field_id: int) (field_name: string) (logical_type: string) (nullable: bool)
    (children: "Field list")

type_synonym Schema = "Field list"

record Manifest =
  schema :: Schema

subsection \<open>The format object\<close>

text \<open>\<^verbatim>\<open>const char kLanceFormatTypeName[] = "lance";\<close>\<close>

definition kLanceFormatTypeName :: string where
  "kLanceFormatTypeName = ''lance''"

text \<open>
  \<^verbatim>\<open>class LanceFileFormat::Impl\<close> holds a shared pointer to the manifest, null
  (\<open>None\<close>) after construction. \<open>LanceFileFormat\<close> owns one \<open>Impl\<close>; its
  \<^verbatim>\<open>const\<close> methods can still assign \<^verbatim>\<open>impl_->manifest\<close>, so the methods
  that touch it return the format object as well.
\<close>

record Impl =
  manifest :: "Manifest option"

record LanceFileFormat =
  impl :: Impl

definition Make :: LanceFileFormat where
  "Make = \<lparr>impl = \<lparr>manifest = None\<rparr>\<rparr>"

definition type_name :: "LanceFileFormat \<Rightarrow> string" where
  "type_name this = kLanceFormatTypeName"

text \<open>
  \<^verbatim>\<open>arrow::dataset::FileFormat\<close> is the base class; \<^verbatim>\<open>type_name\<close> is virtual.
  A format is either a Lance format or another format that answers with its own name.
\<close>

datatype FileFormat = Lance LanceFileFormat | OtherFormat string

fun FileFormat_type_name :: "FileFormat \<Rightarrow> string" where
  "FileFormat_type_name (Lance f) = type_name f"
| "FileFormat_type_name (OtherFormat n) = n"

definition Equals :: "LanceFileFormat \<Rightarrow> FileFormat \<Rightarrow> bool" where
  "Equals this other \<longleftrightarrow> type_name this = FileFormat_type_name other"

definition IsSupported :: "LanceFileFormat \<Rightarrow> FileSource \<Rightarrow> Status + bool" where
  "IsSupported this src = Inr True"

subsection \<open>Write options and the writer factory\<close>

text \<open>
  \<^verbatim>\<open>FileWriteOptions::batch_size\<close> is declared in \<^verbatim>\<open>file_lance.h\<close>, which is
  missing from the sources; it is taken as a signed 32-bit integer (\<^verbatim>\<open>int32_t\<close>)
  and read with \<open>sint\<close>. \<open>Validate\<close> only compares it with 1.
\<close>

record FileWriteOptions =
  batch_size :: "32 word"

definition Validate :: "FileWriteOptions \<Rightarrow> Status" where
  "Validate this =
     (if sint (batch_size this) \<le> 1 then Invalid ''Batch size must be greater than 1''
      else OK)"

datatype WriterState = Created | Opened | Finalized

record FileWriter =
  writer_schema :: ArrowSchema
  writer_options :: FileWriteOptions
  writer_destination :: OutputStream
  writer_destination_locator :: FileLocator
  state :: WriterState

text \<open>
  Modelled from the spec: the constructor of \<^verbatim>\<open>lance::io::FileWriter\<close>
  (\<^verbatim>\<open>lance/io/writer.h\<close>) is missing from the sources. The design document's writer
  is \<open>Created\<close> on construction with (schema, write options, destination sink) and
  opens lazily on the first write. A C++ constructor returns no \<^verbatim>\<open>Status\<close>.
\<close>

definition FileWriter_new ::
  "ArrowSchema \<Rightarrow> FileWriteOptions \<Rightarrow> OutputStream \<Rightarrow> FileLocator \<Rightarrow> FileWriter" where
  "FileWriter_new sch opts dest loc =
     \<lparr>writer_schema = sch, writer_options = opts, writer_destination = dest,
      writer_destination_locator = loc, state = Created\<rparr>"

definition MakeWriter ::
  "LanceFileFormat \<Rightarrow> OutputStream \<Rightarrow> ArrowSchema \<Rightarrow> FileWriteOptions \<Rightarrow> FileLocator
     \<Rightarrow> Status + FileWriter" where
  "MakeWriter this destination sch options destination_locator =
     Inr (FileWriter_new sch options destination destination_locator)"

subsection \<open>Fragment scan options\<close>

datatype LanceFragmentScanOptions = LanceFragmentScanOptions

definition LanceFragmentScanOptions_type_name :: "LanceFragmentScanOptions \<Rightarrow> string" where
  "LanceFragmentScanOptions_type_name this = kLanceFormatTypeName"

text \<open>\<^verbatim>\<open>arrow::dataset::FragmentScanOptions\<close> is the base class, \<^verbatim>\<open>type_name\<close> virtual.\<close>

datatype FragmentScanOptions =
  LanceScanOptions LanceFragmentScanOptions | OtherScanOptions string

fun FragmentScanOptions_type_name :: "FragmentScanOptions \<Rightarrow> string" where
  "FragmentScanOptions_type_name (LanceScanOptions so) = LanceFragmentScanOptions_type_name so"
| "FragmentScanOptions_type_name (OtherScanOptions n) = n"

definition IsLanceFragmentScanOptions :: "FragmentScanOptions \<Rightarrow> bool" where
  "IsLanceFragmentScanOptions fso \<longleftrightarrow> FragmentScanOptions_type_name fso = kLanceFormatTypeName"

subsection \<open>The reader, and what the adapter takes from its collaborators\<close>

text \<open>
  \<^verbatim>\<open>lance::io::FileReader\<close> as the adapter builds it: an input file and a manifest
  pointer, null (\<open>None\<close>) unless the caller supplies one.
\<close>

record FileReader =
  reader_file :: RandomAccessFile
  reader_manifest :: "Manifest option"

text \<open>
  \<^verbatim>\<open>lance::io::RecordBatchReader(reader, options, thread_pool)\<close>, and the
  \<^verbatim>\<open>arrow::RecordBatchGenerator\<close> that wraps it.
\<close>

datatype RecordBatchReader =
  RecordBatchReader (rbr_reader: FileReader) (rbr_options: ScanOptions)
    (rbr_thread_pool: ThreadPool)

datatype RecordBatchGenerator = RecordBatchGenerator (batch_reader: RecordBatchReader)

text \<open>
  The collaborators whose code is outside the adapter are parameters:
  \<^item> \<open>FileSource_Open\<close>: \<^verbatim>\<open>arrow::dataset::FileSource::Open()\<close>;
  \<^item> \<open>Manifest_Load\<close>: parsing the manifest out of an opened file, which can fail;
  \<^item> \<open>Schema_ToArrow\<close>: \<^verbatim>\<open>lance::format::Schema::ToArrow()\<close>;
  \<^item> \<open>RecordBatchReader_Open\<close>: \<^verbatim>\<open>lance::io::RecordBatchReader::Open()\<close>;
  \<^item> \<open>GetCpuThreadPool\<close>: \<^verbatim>\<open>arrow::internal::GetCpuThreadPool()\<close>, the pool
    object of the process.
\<close>

record Env =
  FileSource_Open :: "FileSource \<Rightarrow> Status + RandomAccessFile"
  Manifest_Load :: "RandomAccessFile \<Rightarrow> Status + Manifest"
  Schema_ToArrow :: "Schema \<Rightarrow> ArrowSchema"
  RecordBatchReader_Open :: "RecordBatchReader \<Rightarrow> Status"
  GetCpuThreadPool :: ThreadPool

text \<open>
  The input and output a call performs is kept in a log, oldest event first: every call
  of \<^verbatim>\<open>source.Open()\<close> and every load of a manifest from a file.
\<close>

datatype Event = OpenSource FileSource | LoadManifest RandomAccessFile

text \<open>
  Modelled from the spec: \<^verbatim>\<open>lance::io::FileReader::Open()\<close> and
  \<^verbatim>\<open>FileReader::Make\<close> (\<^verbatim>\<open>lance/io/reader.h\<close>) are missing from the sources.
  The design document's reader loads the manifest if it is not already loaded and
  fails as the manifest's load fails. \<open>FileReader_Open\<close> returns the failing status,
  or the manifest the reader holds afterwards (what \<^verbatim>\<open>reader->manifest()\<close> then
  returns). \<open>FileReader_Make\<close> constructs a reader on the file with the given
  manifest pointer and opens it.
\<close>

definition FileReader_Open ::
  "Env \<Rightarrow> FileReader \<Rightarrow> Event list \<Rightarrow> (Status + Manifest) \<times> Event list" where
  "FileReader_Open env this log =
     (case reader_manifest this of
        Some m \<Rightarrow> (Inr m, log)
      | None \<Rightarrow>
          (Manifest_Load env (reader_file this), log @ [LoadManifest (reader_file this)]))"

definition FileReader_Make ::
  "Env \<Rightarrow> RandomAccessFile \<Rightarrow> Manifest option \<Rightarrow> Event list
     \<Rightarrow> (Status + FileReader) \<times> Event list" where
  "FileReader_Make env infile man log =
     (case FileReader_Open env \<lparr>reader_file = infile, reader_manifest = man\<rparr> log of
        (Inl st, log') \<Rightarrow> (Inl st, log')
      | (Inr m, log') \<Rightarrow> (Inr \<lparr>reader_file = infile, reader_manifest = Some m\<rparr>, log'))"

subsection \<open>Inspect and ScanBatchesAsync\<close>

definition Inspect ::
  "Env \<Rightarrow> LanceFileFormat \<Rightarrow> FileSource \<Rightarrow> Event list
     \<Rightarrow> (Status + ArrowSchema) \<times> LanceFileFormat \<times> Event list" where
  "Inspect env this src log =
     (case manifest (impl this) of
        Some m \<Rightarrow> (Inr (Schema_ToArrow env (schema m)), this, log)
      | None \<Rightarrow>
          (case FileSource_Open env src of
             Inl st \<Rightarrow> (Inl st, this, log @ [OpenSource src])
           | Inr infile \<Rightarrow>
               (case FileReader_Open env \<lparr>reader_file = infile, reader_manifest = None\<rparr>
                       (log @ [OpenSource src]) of
                  (Inl st, log') \<Rightarrow> (Inl st, this, log')
                | (Inr m, log') \<Rightarrow>
                    (Inr (Schema_ToArrow env (schema m)),
                     this\<lparr>impl := (impl this)\<lparr>manifest := Some m\<rparr>\<rparr>, log'))))"

definition ScanBatchesAsync ::
  "Env \<Rightarrow> LanceFileFormat \<Rightarrow> ScanOptions \<Rightarrow> FileFragment \<Rightarrow> Event list
     \<Rightarrow> (Status + RecordBatchGenerator) \<times> LanceFileFormat \<times> Event list" where
  "ScanBatchesAsync env this options file log =
     (case FileSource_Open env (source file) of
        Inl st \<Rightarrow> (Inl st, this, log @ [OpenSource (source file)])
      | Inr infile \<Rightarrow>
          (case FileReader_Make env infile (manifest (impl this))
                  (log @ [OpenSource (source file)]) of
             (Inl st, log') \<Rightarrow> (Inl st, this, log')
           | (Inr reader, log') \<Rightarrow>
               (let batch_reader = RecordBatchReader reader options (GetCpuThreadPool env);
                    st = RecordBatchReader_Open env batch_reader
                in if st \<noteq> OK then (Inl st, this, log')
                   else (Inr (RecordBatchGenerator batch_reader), this, log'))))"

subsection \<open>The record batch generator\<close>

text \<open>
  Modelled from the spec: the record batch generator
  (\<^verbatim>\<open>lance/io/record_batch_reader.h\<close>) is missing from the sources. A delivered
  batch is the rows of one row range of the file, kept here with the file offset of the
  first row of that range.
\<close>

record 's Batch =
  first_row :: nat
  rows :: "'s list"

text \<open>
  Modelled from the spec: the generator targets the scan options' batch size and may
  yield a smaller final batch, so \<open>n\<close> rows make \<open>n\<close> divided by the batch size,
  rounded up, work units. The design document does not say what a batch size of 0 does;
  no unit is made then, and the properties below assume a positive batch size.
\<close>

definition num_units :: "nat \<Rightarrow> nat \<Rightarrow> nat" where
  "num_units n bs = (if bs = 0 then 0 else (n + bs - 1) div bs)"

text \<open>
  Modelled from the spec: the work unit of one batch decodes the rows of its range,
  prunes the rows that the filter predicate rejects, then reduces each row to the
  requested columns. Unit \<open>i\<close> covers the rows from \<open>i * bs\<close> up to
  \<open>i * bs + bs\<close>, fewer at the end of the file. A scan without a filter keeps every
  row.
\<close>

definition work_unit ::
  "('r \<Rightarrow> bool) \<Rightarrow> ('r \<Rightarrow> 's) \<Rightarrow> nat \<Rightarrow> 'r list \<Rightarrow> nat \<Rightarrow> 's Batch" where
  "work_unit keep project bs file_rows i =
     \<lparr>first_row = i * bs,
      rows = map project (filter keep (take bs (drop (i * bs) file_rows)))\<rparr>"

text \<open>
  Modelled from the spec: the state of the generator while the worker pool runs the
  units: how many units the scan has, the index of the next unit to hand to the
  consumer, the completed units that wait for an earlier one, and the batches handed
  over so far.
\<close>

record 'b GeneratorState =
  total_units :: nat
  next_unit :: nat
  pending :: "nat \<rightharpoonup> 'b"
  delivered :: "'b list"

definition generator_init :: "nat \<Rightarrow> 'b GeneratorState" where
  "generator_init n = \<lparr>total_units = n, next_unit = 0, pending = Map.empty, delivered = []\<rparr>"

text \<open>
  Modelled from the spec: out-of-order completions are buffered and released in
  sequence. \<open>release\<close> hands over buffered batches for as long as the next unit in
  file order is there.
\<close>

function release :: "'b GeneratorState \<Rightarrow> 'b GeneratorState" where
  "release g =
     (if next_unit g < total_units g then
        (case pending g (next_unit g) of
           None \<Rightarrow> g
         | Some b \<Rightarrow>
             release (g\<lparr>next_unit := Suc (next_unit g),
                        pending := (pending g)(next_unit g := None),
                        delivered := delivered g @ [b]\<rparr>))
      else g)"
  by pat_completeness auto
termination
  by (relation "measure (\<lambda>g. total_units g - next_unit g)") auto

text \<open>
  Modelled from the spec: a worker thread that finishes unit \<open>i\<close> with batch \<open>b\<close>
  puts it in the buffer; whatever is then in sequence is released.
\<close>

definition complete :: "nat \<Rightarrow> 'b \<Rightarrow> 'b GeneratorState \<Rightarrow> 'b GeneratorState" where
  "complete i b g = release (g\<lparr>pending := (pending g)(i \<mapsto> b)\<rparr>)"

text \<open>
  Modelled from the spec: one scan. All units are submitted to the pool; \<open>order\<close> is
  the order in which the worker threads finish them. The result is what the consumer
  has been given once every completion in \<open>order\<close> has arrived.
\<close>

definition scan_delivered ::
  "('r \<Rightarrow> bool) \<Rightarrow> ('r \<Rightarrow> 's) \<Rightarrow> nat \<Rightarrow> 'r list \<Rightarrow> nat list \<Rightarrow> 's Batch list" where
  "scan_delivered keep project bs file_rows order =
     delivered
       (fold (\<lambda>i. complete i (work_unit keep project bs file_rows i)) order
          (generator_init (num_units (length file_rows) bs)))"

declare release.simps [simp del]

text \<open>What holds of the generator state once the units in \<open>D\<close> have completed.\<close>

definition gen_ok :: "(nat \<Rightarrow> 'b) \<Rightarrow> nat set \<Rightarrow> 'b GeneratorState \<Rightarrow> bool" where
  "gen_ok u D g \<longleftrightarrow>
     delivered g = map u [0..<next_unit g]
     \<and> pending g = (\<lambda>i. if i \<in> D \<and> next_unit g \<le> i then Some (u i) else None)
     \<and> {..<next_unit g} \<subseteq> D \<and> D \<subseteq> {..<total_units g}"

subsection \<open>Concrete inputs\<close>

text \<open>
  A small world used to run the definitions: two files with different schemas, a
  missing third one, and a batch reader that opens.
\<close>

definition demo_schema :: Schema where
  "demo_schema = [Field 0 ''id'' ''int64'' False [], Field 1 ''name'' ''string'' True []]"

definition other_schema :: Schema where
  "other_schema = [Field 0 ''price'' ''double'' False []]"

definition demo_env :: Env where
  "demo_env =
     \<lparr>FileSource_Open =
        (\<lambda>s. if path s = ''a.lance'' then Inr (RandomAccessFile [1])
              else if path s = ''b.lance'' then Inr (RandomAccessFile [2])
              else Inl (IOError ''No such file'')),
      Manifest_Load =
        (\<lambda>f. if contents f = [1] then Inr \<lparr>schema = demo_schema\<rparr>
              else if contents f = [2] then Inr \<lparr>schema = other_schema\<rparr>
              else Inl (IOError ''Corrupt file'')),
      Schema_ToArrow = map (\<lambda>f. ArrowField (field_name f) (logical_type f) (nullable f) []),
      RecordBatchReader_Open = (\<lambda>r. OK),
      GetCpuThreadPool = ThreadPool 0\<rparr>"

definition demo_options :: ScanOptions where
  "demo_options = \<lparr>projected_columns = [''id''], scan_filter = None, scan_batch_size = 2\<rparr>"

definition demo_cached :: LanceFileFormat where
  "demo_cached = \<lparr>impl = \<lparr>manifest = Some \<lparr>schema = demo_schema\<rparr>\<rparr>\<rparr>"

definition demo_rows :: "(int \<times> string) list" where
  "demo_rows = [(1, ''a''), (2, ''b''), (3, ''c''), (4, ''d''), (5, ''e'')]"

section \<open>Properties\<close>

subsection \<open>Write options and writer construction\<close>

text \<open>
  C1 (as amended). \<open>MakeWriter\<close> performs no validation: for every schema,
  destination and write options, also with a batch size of 1 or less, it returns a
  writer in state \<open>Created\<close> that holds exactly the given schema, options,
  destination (with the bytes it already had, none added) and locator. It never returns
  an error status.
\<close>

theorem MakeWriter_always_returns_writer:
  "\<exists>w. MakeWriter this dest sch opts loc = Inr w
       \<and> writer_destination w = dest \<and> writer_options w = opts \<and> writer_schema w = sch
       \<and> writer_destination_locator w = loc \<and> state w = Created"
  by (simp add: MakeWriter_def FileWriter_new_def)

text \<open>
  C1 as stated fails: with batch size 1, which \<open>Validate\<close> rejects, \<open>MakeWriter\<close>
  still returns a writer and not an invalid-configuration status.
\<close>

theorem MakeWriter_batch_size_1_counterexample:
  "Validate \<lparr>batch_size = 1\<rparr> = Invalid ''Batch size must be greater than 1''
   \<and> MakeWriter Make (OutputStream []) [] \<lparr>batch_size = 1\<rparr> (FileLocator ''out.lance'')
       = Inr \<lparr>writer_schema = [], writer_options = \<lparr>batch_size = 1\<rparr>,
              writer_destination = OutputStream [],
              writer_destination_locator = FileLocator ''out.lance'', state = Created\<rparr>"
  by (simp add: MakeWriter_def FileWriter_new_def Validate_def)

text \<open>
  C2. \<open>Validate\<close> returns the invalid status exactly when the batch size is at most 1,
  and \<open>OK\<close> exactly when it is at least 2; batch size 2 is accepted.
\<close>

theorem Validate_fails_iff_batch_size_le_1:
  "(Validate opts = Invalid ''Batch size must be greater than 1'')
     = (sint (batch_size opts) \<le> 1)
   \<and> (Validate opts = OK) = (2 \<le> sint (batch_size opts))
   \<and> Validate (opts\<lparr>batch_size := 2\<rparr>) = OK"
  by (simp add: Validate_def)

subsection \<open>Recognition, equality and the type name\<close>

text \<open>C4. \<open>IsSupported\<close> answers true for every source, and never an error.\<close>

theorem IsSupported_always_true: "IsSupported this src = Inr True"
  by (simp add: IsSupported_def)

text \<open>
  C5. \<open>Equals\<close> holds exactly when the two type names are equal. The cached manifest
  of the left format does not matter, and any two Lance formats are equal whatever
  they cache.
\<close>

theorem Equals_iff_type_name:
  "Equals a b = (type_name a = FileFormat_type_name b)
   \<and> Equals (a\<lparr>impl := i\<rparr>) b = Equals a b
   \<and> Equals a (Lance c)"
  by (simp add: Equals_def type_name_def)

text \<open>
  C6. Both \<open>type_name\<close> methods return the constant string "lance", and
  \<open>IsLanceFragmentScanOptions\<close> holds exactly for scan options whose type name is
  that string.
\<close>

theorem type_name_is_lance:
  "type_name f = ''lance''
   \<and> LanceFragmentScanOptions_type_name so = ''lance''
   \<and> IsLanceFragmentScanOptions fso = (FragmentScanOptions_type_name fso = ''lance'')"
  by (simp add: type_name_def LanceFragmentScanOptions_type_name_def
      IsLanceFragmentScanOptions_def kLanceFormatTypeName_def)

subsection \<open>Inspect and ScanBatchesAsync\<close>

lemma Inspect_cached:
  "manifest (impl fmt) = Some m \<Longrightarrow>
     Inspect env fmt src log = (Inr (Schema_ToArrow env (schema m)), fmt, log)"
  by (simp add: Inspect_def)

lemma Inspect_first:
  assumes "manifest (impl fmt) = None"
      and "Inspect env fmt src log = (Inr sch, fmt', log')"
  shows "\<exists>infile m. FileSource_Open env src = Inr infile \<and> Manifest_Load env infile = Inr m
           \<and> log' = log @ [OpenSource src, LoadManifest infile]
           \<and> fmt' = fmt\<lparr>impl := (impl fmt)\<lparr>manifest := Some m\<rparr>\<rparr>
           \<and> sch = Schema_ToArrow env (schema m)"
  using assms
  by (auto simp: Inspect_def FileReader_Open_def split: sum.splits prod.splits)

lemma Scan_cached_log:
  "manifest (impl fmt) = Some m \<Longrightarrow>
     snd (snd (ScanBatchesAsync env fmt opts file log)) = log @ [OpenSource (source file)]"
  by (simp add: ScanBatchesAsync_def FileReader_Make_def FileReader_Open_def Let_def
      split: sum.splits)

lemma Scan_cached_reader:
  "manifest (impl fmt) = Some m \<Longrightarrow> fst (ScanBatchesAsync env fmt opts file log) = Inr g \<Longrightarrow>
     reader_manifest (rbr_reader (batch_reader g)) = Some m"
  by (auto simp: ScanBatchesAsync_def FileReader_Make_def FileReader_Open_def Let_def
      split: sum.splits if_splits)

lemma Scan_frame: "fst (snd (ScanBatchesAsync env fmt opts file log)) = fmt"
  by (simp add: ScanBatchesAsync_def Let_def split: sum.splits prod.splits)

lemma Scan_pool:
  "fst (ScanBatchesAsync env fmt opts file log) = Inr g \<Longrightarrow>
     rbr_thread_pool (batch_reader g) = GetCpuThreadPool env"
  by (auto simp: ScanBatchesAsync_def Let_def split: sum.splits prod.splits if_splits)

lemma Scan_cached_open_fails:
  "manifest (impl fmt) = Some m \<Longrightarrow> FileSource_Open env (source file) = Inl st \<Longrightarrow>
     ScanBatchesAsync env fmt opts file log = (Inl st, fmt, log @ [OpenSource (source file)])"
  by (simp add: ScanBatchesAsync_def)

lemma Scan_cached_result:
  "manifest (impl fmt) = Some m \<Longrightarrow> FileSource_Open env (source file) = Inr infile \<Longrightarrow>
     ScanBatchesAsync env fmt opts file log =
       (let batch_reader =
              RecordBatchReader \<lparr>reader_file = infile, reader_manifest = Some m\<rparr> opts
                (GetCpuThreadPool env)
        in (if RecordBatchReader_Open env batch_reader = OK
            then Inr (RecordBatchGenerator batch_reader)
            else Inl (RecordBatchReader_Open env batch_reader),
            fmt, log @ [OpenSource (source file)]))"
  by (simp add: ScanBatchesAsync_def FileReader_Make_def FileReader_Open_def Let_def)

text \<open>
  C3. Let the format have no cached manifest and let \<open>Inspect\<close> succeed. Then it
  opened the source and loaded the manifest from it once, cached that manifest on the
  format object and returned its schema. Every later \<open>Inspect\<close>, on any source,
  returns the same schema, leaves the format as it is and performs no input at all.
  Every later \<open>ScanBatchesAsync\<close> only opens its source and loads no manifest. If the
  source does not open, the scan returns that status. If it opens, the scan builds its
  reader on the opened file with the cached manifest, opens the batch reader made of
  that reader, the scan options and the pool, and returns the generator over exactly
  that batch reader, or the status with which the batch reader failed to open.
\<close>

theorem Inspect_memoized_and_scan_reuses_cache:
  assumes first: "manifest (impl fmt) = None"
      and ok: "Inspect env fmt src log = (Inr sch, fmt', log')"
  shows "\<exists>infile m.
           FileSource_Open env src = Inr infile \<and> Manifest_Load env infile = Inr m
         \<and> log' = log @ [OpenSource src, LoadManifest infile]
         \<and> manifest (impl fmt') = Some m
         \<and> sch = Schema_ToArrow env (schema m)
         \<and> (\<forall>src2 log2. Inspect env fmt' src2 log2 = (Inr sch, fmt', log2))
         \<and> (\<forall>opts file log2.
              snd (snd (ScanBatchesAsync env fmt' opts file log2))
                = log2 @ [OpenSource (source file)]
            \<and> (\<forall>g. fst (ScanBatchesAsync env fmt' opts file log2) = Inr g \<longrightarrow>
                   reader_manifest (rbr_reader (batch_reader g)) = Some m))
         \<and> (\<forall>opts file log2 st. FileSource_Open env (source file) = Inl st \<longrightarrow>
              ScanBatchesAsync env fmt' opts file log2
                = (Inl st, fmt', log2 @ [OpenSource (source file)]))
         \<and> (\<forall>opts file log2 infile2. FileSource_Open env (source file) = Inr infile2 \<longrightarrow>
              ScanBatchesAsync env fmt' opts file log2 =
                (let batch_reader =
                       RecordBatchReader \<lparr>reader_file = infile2, reader_manifest = Some m\<rparr>
                         opts (GetCpuThreadPool env)
                 in (if RecordBatchReader_Open env batch_reader = OK
                     then Inr (RecordBatchGenerator batch_reader)
                     else Inl (RecordBatchReader_Open env batch_reader),
                     fmt', log2 @ [OpenSource (source file)])))"
proof -
  from Inspect_first [OF first ok] obtain infile m where
    o: "FileSource_Open env src = Inr infile" and l: "Manifest_Load env infile = Inr m"
    and lg: "log' = log @ [OpenSource src, LoadManifest infile]"
    and f: "fmt' = fmt\<lparr>impl := (impl fmt)\<lparr>manifest := Some m\<rparr>\<rparr>"
    and s: "sch = Schema_ToArrow env (schema m)"
    by blast
  from f have c: "manifest (impl fmt') = Some m" by simp
  have again: "\<forall>src2 log2. Inspect env fmt' src2 log2 = (Inr sch, fmt', log2)"
    using Inspect_cached [OF c] s by simp
  have scan: "\<forall>opts file log2.
              snd (snd (ScanBatchesAsync env fmt' opts file log2))
                = log2 @ [OpenSource (source file)]
            \<and> (\<forall>g. fst (ScanBatchesAsync env fmt' opts file log2) = Inr g \<longrightarrow>
                   reader_manifest (rbr_reader (batch_reader g)) = Some m)"
    using Scan_cached_log [OF c] Scan_cached_reader [OF c] by blast
  have fails: "\<forall>opts file log2 st. FileSource_Open env (source file) = Inl st \<longrightarrow>
              ScanBatchesAsync env fmt' opts file log2
                = (Inl st, fmt', log2 @ [OpenSource (source file)])"
    using Scan_cached_open_fails [OF c] by blast
  have hands: "\<forall>opts file log2 infile2. FileSource_Open env (source file) = Inr infile2 \<longrightarrow>
              ScanBatchesAsync env fmt' opts file log2 =
                (let batch_reader =
                       RecordBatchReader \<lparr>reader_file = infile2, reader_manifest = Some m\<rparr>
                         opts (GetCpuThreadPool env)
                 in (if RecordBatchReader_Open env batch_reader = OK
                     then Inr (RecordBatchGenerator batch_reader)
                     else Inl (RecordBatchReader_Open env batch_reader),
                     fmt', log2 @ [OpenSource (source file)]))"
    using Scan_cached_result [OF c] by blast
  show ?thesis
    by (intro exI [of _ infile] exI [of _ m] conjI o l lg c s again scan fails hands)
qed

lemmas demo_defs = demo_env_def demo_cached_def demo_schema_def other_schema_def
  demo_options_def Make_def

lemma demo_inspect_a:
  "Inspect demo_env Make (FileSource ''a.lance'') []
     = (Inr (Schema_ToArrow demo_env demo_schema), demo_cached,
        [OpenSource (FileSource ''a.lance''), LoadManifest (RandomAccessFile [1])])"
  by (simp add: Inspect_def FileReader_Open_def demo_defs)

theorem Inspect_memoized_and_scan_reuses_cache_witness:
  "manifest (impl Make) = None
   \<and> Inspect demo_env Make (FileSource ''a.lance'') []
       = (Inr (Schema_ToArrow demo_env demo_schema), demo_cached,
          [OpenSource (FileSource ''a.lance''), LoadManifest (RandomAccessFile [1])])
   \<and> Inspect demo_env demo_cached (FileSource ''b.lance'') []
       = (Inr (Schema_ToArrow demo_env demo_schema), demo_cached, [])
   \<and> snd (snd (ScanBatchesAsync demo_env demo_cached demo_options
                 \<lparr>source = FileSource ''a.lance''\<rparr> []))
       = [OpenSource (FileSource ''a.lance'')]
   \<and> ScanBatchesAsync demo_env demo_cached demo_options \<lparr>source = FileSource ''b.lance''\<rparr> []
       = (Inr (RecordBatchGenerator (RecordBatchReader
            \<lparr>reader_file = RandomAccessFile [2],
               reader_manifest = Some \<lparr>schema = demo_schema\<rparr>\<rparr>
            demo_options (ThreadPool 0))),
          demo_cached, [OpenSource (FileSource ''b.lance'')])
   \<and> ScanBatchesAsync demo_env demo_cached demo_options \<lparr>source = FileSource ''c.lance''\<rparr> []
       = (Inl (IOError ''No such file''), demo_cached, [OpenSource (FileSource ''c.lance'')])"
proof -
  have h1: "manifest (impl Make) = None" by (simp add: Make_def)
  from Inspect_memoized_and_scan_reuses_cache [OF h1 demo_inspect_a] obtain infile m where
    c: "manifest (impl demo_cached) = Some m"
    and again: "\<forall>src2 log2. Inspect demo_env demo_cached src2 log2
                  = (Inr (Schema_ToArrow demo_env demo_schema), demo_cached, log2)"
    and lg: "\<forall>opts file log2.
              snd (snd (ScanBatchesAsync demo_env demo_cached opts file log2))
                = log2 @ [OpenSource (source file)]
            \<and> (\<forall>g. fst (ScanBatchesAsync demo_env demo_cached opts file log2) = Inr g \<longrightarrow>
                   reader_manifest (rbr_reader (batch_reader g)) = Some m)"
    and fails: "\<forall>opts file log2 st. FileSource_Open demo_env (source file) = Inl st \<longrightarrow>
              ScanBatchesAsync demo_env demo_cached opts file log2
                = (Inl st, demo_cached, log2 @ [OpenSource (source file)])"
    and hands: "\<forall>opts file log2 infile2.
              FileSource_Open demo_env (source file) = Inr infile2 \<longrightarrow>
              ScanBatchesAsync demo_env demo_cached opts file log2 =
                (let batch_reader =
                       RecordBatchReader \<lparr>reader_file = infile2, reader_manifest = Some m\<rparr>
                         opts (GetCpuThreadPool demo_env)
                 in (if RecordBatchReader_Open demo_env batch_reader = OK
                     then Inr (RecordBatchGenerator batch_reader)
                     else Inl (RecordBatchReader_Open demo_env batch_reader),
                     demo_cached, log2 @ [OpenSource (source file)]))"
    by blast
  from c have m: "m = \<lparr>schema = demo_schema\<rparr>" by (simp add: demo_cached_def)
  have ob: "FileSource_Open demo_env (source \<lparr>source = FileSource ''b.lance''\<rparr>)
              = Inr (RandomAccessFile [2])"
    by (simp add: demo_env_def)
  have oc: "FileSource_Open demo_env (source \<lparr>source = FileSource ''c.lance''\<rparr>)
              = Inl (IOError ''No such file'')"
    by (simp add: demo_env_def)
  have pool: "GetCpuThreadPool demo_env = ThreadPool 0"
    and opens: "\<And>r. RecordBatchReader_Open demo_env r = OK"
    by (simp_all add: demo_env_def)
  from hands [rule_format, OF ob, of demo_options "[]"]
  have sb: "ScanBatchesAsync demo_env demo_cached demo_options
              \<lparr>source = FileSource ''b.lance''\<rparr> []
       = (Inr (RecordBatchGenerator (RecordBatchReader
            \<lparr>reader_file = RandomAccessFile [2],
               reader_manifest = Some \<lparr>schema = demo_schema\<rparr>\<rparr>
            demo_options (ThreadPool 0))),
          demo_cached, [OpenSource (FileSource ''b.lance'')])"
    by (simp add: m pool opens)
  from fails [rule_format, OF oc, of demo_options "[]"]
  have sc: "ScanBatchesAsync demo_env demo_cached demo_options
              \<lparr>source = FileSource ''c.lance''\<rparr> []
       = (Inl (IOError ''No such file''), demo_cached, [OpenSource (FileSource ''c.lance'')])"
    by simp
  from lg [rule_format, THEN conjunct1, of demo_options "\<lparr>source = FileSource ''a.lance''\<rparr>" "[]"]
  have sa: "snd (snd (ScanBatchesAsync demo_env demo_cached demo_options
                 \<lparr>source = FileSource ''a.lance''\<rparr> []))
       = [OpenSource (FileSource ''a.lance'')]"
    by simp
  from h1 demo_inspect_a again [rule_format, of "FileSource ''b.lance''" "[]"] sa sb sc
  show ?thesis by (intro conjI)
qed

lemma Inspect_success_cached:
  assumes "Inspect env fmt src log = (Inr sch, fmt', log')"
  shows "\<exists>m. manifest (impl fmt') = Some m \<and> sch = Schema_ToArrow env (schema m)"
proof (cases "manifest (impl fmt)")
  case None
  from Inspect_first [OF None assms] show ?thesis by auto
next
  case (Some m)
  from Inspect_cached [OF Some, of env src log] assms Some show ?thesis by auto
qed

text \<open>
  C9. With a manifest cached, \<open>Inspect\<close> returns the cached manifest's schema for
  every source, without opening or reading anything (the log is unchanged) and without
  changing the format. So after one successful \<open>Inspect\<close>, inspecting any other source
  returns the schema of the first.
\<close>

theorem Inspect_cached_ignores_source:
  "(manifest (impl fmt) = Some m \<longrightarrow>
      Inspect env fmt src log = (Inr (Schema_ToArrow env (schema m)), fmt, log))
   \<and> (Inspect env fmt0 src1 log0 = (Inr sch, fmt1, log1) \<longrightarrow>
      Inspect env fmt1 src2 log2 = (Inr sch, fmt1, log2))"
proof (intro conjI impI)
  assume "manifest (impl fmt) = Some m"
  then show "Inspect env fmt src log = (Inr (Schema_ToArrow env (schema m)), fmt, log)"
    by (rule Inspect_cached)
next
  assume "Inspect env fmt0 src1 log0 = (Inr sch, fmt1, log1)"
  from Inspect_success_cached [OF this] obtain m1 where
    "manifest (impl fmt1) = Some m1" and "sch = Schema_ToArrow env (schema m1)"
    by blast
  then show "Inspect env fmt1 src2 log2 = (Inr sch, fmt1, log2)"
    by (simp add: Inspect_cached)
qed

lemma demo_inspect_b:
  "Inspect demo_env Make (FileSource ''b.lance'') []
     = (Inr (Schema_ToArrow demo_env other_schema),
        \<lparr>impl = \<lparr>manifest = Some \<lparr>schema = other_schema\<rparr>\<rparr>\<rparr>,
        [OpenSource (FileSource ''b.lance''), LoadManifest (RandomAccessFile [2])])"
  by (simp add: Inspect_def FileReader_Open_def demo_defs)

theorem Inspect_cached_ignores_source_witness:
  "manifest (impl demo_cached) = Some \<lparr>schema = demo_schema\<rparr>
   \<and> Inspect demo_env Make (FileSource ''a.lance'') []
       = (Inr (Schema_ToArrow demo_env demo_schema), demo_cached,
          [OpenSource (FileSource ''a.lance''), LoadManifest (RandomAccessFile [1])])
   \<and> Inspect demo_env demo_cached (FileSource ''b.lance'') []
       = (Inr (Schema_ToArrow demo_env demo_schema), demo_cached, [])
   \<and> fst (Inspect demo_env Make (FileSource ''b.lance'') [])
       = Inr (Schema_ToArrow demo_env other_schema)
   \<and> Schema_ToArrow demo_env other_schema \<noteq> Schema_ToArrow demo_env demo_schema"
proof -
  have c: "manifest (impl demo_cached) = Some \<lparr>schema = demo_schema\<rparr>"
    by (simp add: demo_cached_def)
  have d: "Schema_ToArrow demo_env other_schema \<noteq> Schema_ToArrow demo_env demo_schema"
    by (simp add: demo_defs)
  from Inspect_cached_ignores_source
    [of demo_cached "\<lparr>schema = demo_schema\<rparr>" demo_env "FileSource ''b.lance''" "[]"
        Make "FileSource ''a.lance''" "[]" "Schema_ToArrow demo_env demo_schema" demo_cached
        "[OpenSource (FileSource ''a.lance''), LoadManifest (RandomAccessFile [1])]"
        "FileSource ''b.lance''" "[]"]
  show ?thesis using c d demo_inspect_a demo_inspect_b by simp
qed

text \<open>
  C8. Every generator that \<open>ScanBatchesAsync\<close> returns runs on the pool that
  \<open>GetCpuThreadPool\<close> returns: two scans, of any formats, options and files, share
  that one pool.
\<close>

theorem ScanBatchesAsync_uses_process_pool:
  assumes "fst (ScanBatchesAsync env fmt1 opts1 file1 log1) = Inr g1"
      and "fst (ScanBatchesAsync env fmt2 opts2 file2 log2) = Inr g2"
  shows "rbr_thread_pool (batch_reader g1) = GetCpuThreadPool env
       \<and> rbr_thread_pool (batch_reader g2) = rbr_thread_pool (batch_reader g1)"
  using Scan_pool [OF assms(1)] Scan_pool [OF assms(2)] by simp

lemma demo_scan_a:
  "fst (ScanBatchesAsync demo_env Make demo_options \<lparr>source = FileSource ''a.lance''\<rparr> [])
     = Inr (RecordBatchGenerator (RecordBatchReader
         \<lparr>reader_file = RandomAccessFile [1], reader_manifest = Some \<lparr>schema = demo_schema\<rparr>\<rparr>
         demo_options (ThreadPool 0)))"
  by (simp add: ScanBatchesAsync_def FileReader_Make_def FileReader_Open_def demo_env_def
      Make_def)

lemma demo_scan_b:
  "fst (ScanBatchesAsync demo_env demo_cached (demo_options\<lparr>scan_batch_size := 7\<rparr>)
          \<lparr>source = FileSource ''b.lance''\<rparr> [])
     = Inr (RecordBatchGenerator (RecordBatchReader
         \<lparr>reader_file = RandomAccessFile [2], reader_manifest = Some \<lparr>schema = demo_schema\<rparr>\<rparr>
         (demo_options\<lparr>scan_batch_size := 7\<rparr>) (ThreadPool 0)))"
  by (simp add: ScanBatchesAsync_def FileReader_Make_def FileReader_Open_def demo_env_def
      demo_cached_def)

theorem ScanBatchesAsync_uses_process_pool_witness:
  "fst (ScanBatchesAsync demo_env Make demo_options \<lparr>source = FileSource ''a.lance''\<rparr> [])
     = Inr (RecordBatchGenerator (RecordBatchReader
         \<lparr>reader_file = RandomAccessFile [1], reader_manifest = Some \<lparr>schema = demo_schema\<rparr>\<rparr>
         demo_options (ThreadPool 0)))
   \<and> fst (ScanBatchesAsync demo_env demo_cached (demo_options\<lparr>scan_batch_size := 7\<rparr>)
          \<lparr>source = FileSource ''b.lance''\<rparr> [])
     = Inr (RecordBatchGenerator (RecordBatchReader
         \<lparr>reader_file = RandomAccessFile [2], reader_manifest = Some \<lparr>schema = demo_schema\<rparr>\<rparr>
         (demo_options\<lparr>scan_batch_size := 7\<rparr>) (ThreadPool 0)))
   \<and> GetCpuThreadPool demo_env = ThreadPool 0"
  using ScanBatchesAsync_uses_process_pool [OF demo_scan_a demo_scan_b] demo_scan_a demo_scan_b
  by simp

text \<open>
  C10. \<open>ScanBatchesAsync\<close> returns the format object as it received it, whether it
  succeeds or fails. If no manifest was cached, none is cached afterwards, and a
  successful scan has opened the source and loaded a manifest of its own, held by the
  reader of the generator.
\<close>

theorem ScanBatchesAsync_keeps_cache:
  "fst (snd (ScanBatchesAsync env fmt opts file log)) = fmt
   \<and> (manifest (impl fmt) = None \<longrightarrow>
        manifest (impl (fst (snd (ScanBatchesAsync env fmt opts file log)))) = None
      \<and> (\<forall>g. fst (ScanBatchesAsync env fmt opts file log) = Inr g \<longrightarrow>
           (\<exists>infile m. FileSource_Open env (source file) = Inr infile
              \<and> Manifest_Load env infile = Inr m
              \<and> rbr_reader (batch_reader g) = \<lparr>reader_file = infile, reader_manifest = Some m\<rparr>
              \<and> snd (snd (ScanBatchesAsync env fmt opts file log))
                  = log @ [OpenSource (source file), LoadManifest infile])))"
proof (intro conjI impI allI)
  show f: "fst (snd (ScanBatchesAsync env fmt opts file log)) = fmt"
    by (rule Scan_frame)
  assume n: "manifest (impl fmt) = None"
  with f show "manifest (impl (fst (snd (ScanBatchesAsync env fmt opts file log)))) = None"
    by simp
  fix g
  assume "fst (ScanBatchesAsync env fmt opts file log) = Inr g"
  with n show "\<exists>infile m. FileSource_Open env (source file) = Inr infile
              \<and> Manifest_Load env infile = Inr m
              \<and> rbr_reader (batch_reader g) = \<lparr>reader_file = infile, reader_manifest = Some m\<rparr>
              \<and> snd (snd (ScanBatchesAsync env fmt opts file log))
                  = log @ [OpenSource (source file), LoadManifest infile]"
    by (auto simp: ScanBatchesAsync_def FileReader_Make_def FileReader_Open_def Let_def
        split: sum.splits prod.splits if_splits)
qed

theorem ScanBatchesAsync_keeps_cache_witness:
  "manifest (impl Make) = None
   \<and> ScanBatchesAsync demo_env Make demo_options \<lparr>source = FileSource ''a.lance''\<rparr> []
       = (Inr (RecordBatchGenerator (RecordBatchReader
            \<lparr>reader_file = RandomAccessFile [1],
               reader_manifest = Some \<lparr>schema = demo_schema\<rparr>\<rparr>
            demo_options (ThreadPool 0))),
          Make,
          [OpenSource (FileSource ''a.lance''), LoadManifest (RandomAccessFile [1])])
   \<and> fst (snd (ScanBatchesAsync demo_env demo_cached demo_options
                 \<lparr>source = FileSource ''b.lance''\<rparr> [])) = demo_cached"
proof -
  have n: "manifest (impl Make) = None" by (simp add: Make_def)
  have s: "ScanBatchesAsync demo_env Make demo_options \<lparr>source = FileSource ''a.lance''\<rparr> []
       = (Inr (RecordBatchGenerator (RecordBatchReader
            \<lparr>reader_file = RandomAccessFile [1],
               reader_manifest = Some \<lparr>schema = demo_schema\<rparr>\<rparr>
            demo_options (ThreadPool 0))),
          Make,
          [OpenSource (FileSource ''a.lance''), LoadManifest (RandomAccessFile [1])])"
    by (simp add: ScanBatchesAsync_def FileReader_Make_def FileReader_Open_def demo_env_def
        Make_def)
  from ScanBatchesAsync_keeps_cache
    [of demo_env demo_cached demo_options "\<lparr>source = FileSource ''b.lance''\<rparr>" "[]"]
    ScanBatchesAsync_keeps_cache
    [of demo_env Make demo_options "\<lparr>source = FileSource ''a.lance''\<rparr>" "[]"]
  show ?thesis using n s by simp
qed

subsection \<open>The order of delivered batches\<close>

lemma release_ok:
  "gen_ok u D g \<Longrightarrow>
     gen_ok u D (release g) \<and> total_units (release g) = total_units g
     \<and> (next_unit (release g) < total_units g \<longrightarrow> next_unit (release g) \<notin> D)"
proof (induction g rule: release.induct)
  case (1 g)
  show ?case
  proof (cases "next_unit g < total_units g")
    case False
    with "1.prems" show ?thesis by (simp add: release.simps [of g])
  next
    case True
    show ?thesis
    proof (cases "pending g (next_unit g)")
      case None
      with "1.prems" have "next_unit g \<notin> D"
        by (auto simp: gen_ok_def split: if_splits)
      with True None "1.prems" show ?thesis by (simp add: release.simps [of g])
    next
      case (Some b)
      let ?g' = "g\<lparr>next_unit := Suc (next_unit g),
                    pending := (pending g)(next_unit g := None),
                    delivered := delivered g @ [b]\<rparr>"
      from Some "1.prems" have inD: "next_unit g \<in> D" and b: "b = u (next_unit g)"
        by (auto simp: gen_ok_def split: if_splits)
      have "gen_ok u D ?g'"
        using "1.prems" inD b
        by (auto simp: gen_ok_def fun_eq_iff less_Suc_eq)
      from "1.IH" [OF True Some this] True Some show ?thesis
        by (simp add: release.simps [of g])
    qed
  qed
qed

lemma complete_ok:
  assumes "gen_ok u D g" and "i \<notin> D" and "i < total_units g"
  shows "gen_ok u (insert i D) (complete i (u i) g)
       \<and> total_units (complete i (u i) g) = total_units g
       \<and> (next_unit (complete i (u i) g) < total_units g
            \<longrightarrow> next_unit (complete i (u i) g) \<notin> insert i D)"
proof -
  let ?g1 = "g\<lparr>pending := (pending g)(i \<mapsto> u i)\<rparr>"
  from assms have "next_unit g \<le> i"
    by (auto simp: gen_ok_def subset_iff not_le [symmetric])
  with assms have "gen_ok u (insert i D) ?g1"
    by (auto simp: gen_ok_def fun_eq_iff)
  from release_ok [OF this] show ?thesis by (simp add: complete_def)
qed

lemma fold_complete_ok:
  "gen_ok u D g \<Longrightarrow> distinct order \<Longrightarrow> set order \<inter> D = {} \<Longrightarrow>
   set order \<subseteq> {..<total_units g} \<Longrightarrow> order \<noteq> [] \<Longrightarrow>
     gen_ok u (D \<union> set order) (fold (\<lambda>i. complete i (u i)) order g)
     \<and> total_units (fold (\<lambda>i. complete i (u i)) order g) = total_units g
     \<and> (next_unit (fold (\<lambda>i. complete i (u i)) order g) < total_units g
          \<longrightarrow> next_unit (fold (\<lambda>i. complete i (u i)) order g) \<notin> D \<union> set order)"
proof (induction order arbitrary: g D)
  case Nil
  then show ?case by simp
next
  case (Cons i order)
  from Cons.prems have i: "i \<notin> D" "i < total_units g" by auto
  note c = complete_ok [OF Cons.prems(1) i]
  show ?case
  proof (cases "order = []")
    case True
    with c show ?thesis by simp
  next
    case False
    have "gen_ok u (insert i D \<union> set order)
            (fold (\<lambda>i. complete i (u i)) order (complete i (u i) g))
     \<and> total_units (fold (\<lambda>i. complete i (u i)) order (complete i (u i) g))
         = total_units (complete i (u i) g)
     \<and> (next_unit (fold (\<lambda>i. complete i (u i)) order (complete i (u i) g))
            < total_units (complete i (u i) g)
          \<longrightarrow> next_unit (fold (\<lambda>i. complete i (u i)) order (complete i (u i) g))
                \<notin> insert i D \<union> set order)"
      using Cons.prems c False by (intro Cons.IH) auto
    with c show ?thesis by simp
  qed
qed

lemma delivered_all:
  assumes "distinct order" and "set order = {..<n}"
  shows "delivered (fold (\<lambda>i. complete i (u i)) order (generator_init n)) = map u [0..<n]"
proof (cases "order = []")
  case True
  with assms have "n = 0" by auto
  with True show ?thesis by (simp add: generator_init_def)
next
  case False
  let ?g = "fold (\<lambda>i. complete i (u i)) order (generator_init n)"
  have "gen_ok u {} (generator_init n)"
    by (simp add: gen_ok_def generator_init_def)
  from fold_complete_ok [OF this assms(1) _ _ False] assms(2)
  have ok: "gen_ok u {..<n} ?g" and t: "total_units ?g = n"
    and nx: "next_unit ?g < n \<longrightarrow> next_unit ?g \<notin> {..<n}"
    by (simp_all add: generator_init_def)
  from nx have "n \<le> next_unit ?g" by auto
  moreover from ok have "{..<next_unit ?g} \<subseteq> {..<n}" by (auto simp: gen_ok_def)
  then have "next_unit ?g \<le> n" by (cases "next_unit ?g") (auto simp: subset_iff)
  ultimately have "next_unit ?g = n" by simp
  with ok show ?thesis by (simp add: gen_ok_def)
qed

lemma concat_chunks:
  "concat (map (\<lambda>i. take bs (drop (i * bs) xs)) [0..<k]) = take (k * bs) xs"
proof (induction k)
  case 0
  show ?case by simp
next
  case (Suc k)
  have "take (k * bs + bs) xs = take (k * bs) xs @ take bs (drop (k * bs) xs)"
    by (rule take_add)
  with Suc show ?case by (simp add: add.commute [of bs])
qed

lemma num_units_cover:
  assumes "0 < bs"
  shows "n \<le> num_units n bs * bs"
proof -
  define q where "q = (n + bs - 1) div bs"
  define r where "r = (n + bs - 1) mod bs"
  have e: "q * bs + r = n + bs - 1"
    unfolding q_def r_def by (rule div_mult_mod_eq)
  from assms have "r < bs"
    unfolding r_def by (rule mod_less_divisor)
  with e have "n \<le> q * bs" by linarith
  moreover from assms have "num_units n bs = q"
    unfolding num_units_def q_def by simp
  ultimately show ?thesis by simp
qed

lemma rows_all_units:
  assumes "0 < bs"
  shows "concat (map rows (map (work_unit keep project bs xs) [0..<num_units (length xs) bs]))
           = map project (filter keep xs)"
proof -
  have "concat (map rows (map (work_unit keep project bs xs) [0..<k]))
          = map project (filter keep (concat (map (\<lambda>i. take bs (drop (i * bs) xs)) [0..<k])))"
    for k
    by (induction k) (simp_all add: work_unit_def)
  then show ?thesis
    using num_units_cover [OF assms, of "length xs"] by (simp add: concat_chunks)
qed

lemma first_rows_sorted: "sorted (map first_row (map (work_unit keep project bs xs) [0..<k]))"
  by (induction k) (auto simp: work_unit_def sorted_append)

text \<open>
  C7. Take a scan with a positive batch size in which every work unit completes exactly
  once, in any order. Then the consumer receives exactly the units' batches in file
  order, whatever the completion order was; the first-row offsets of the delivered
  batches are non-decreasing; the delivered rows, concatenated, are the file's rows that
  pass the filter, projected, in file order; and for a scan without filter and
  projection they are the file's rows.
\<close>

theorem scan_delivers_in_file_row_order:
  assumes "0 < bs" and "distinct order" and "set order = {..<num_units (length file_rows) bs}"
  shows "scan_delivered keep project bs file_rows order
           = map (work_unit keep project bs file_rows) [0..<num_units (length file_rows) bs]
       \<and> sorted (map first_row (scan_delivered keep project bs file_rows order))
       \<and> concat (map rows (scan_delivered keep project bs file_rows order))
           = map project (filter keep file_rows)
       \<and> concat (map rows (scan_delivered (\<lambda>r. True) (\<lambda>r. r) bs file_rows order)) = file_rows"
proof -
  have d: "scan_delivered keep' project' bs file_rows order
           = map (work_unit keep' project' bs file_rows) [0..<num_units (length file_rows) bs]"
    for keep' :: "'a \<Rightarrow> bool" and project' :: "'a \<Rightarrow> 'c"
    unfolding scan_delivered_def by (rule delivered_all [OF assms(2,3)])
  have "map (\<lambda>r. r) (filter (\<lambda>r. True) file_rows) = file_rows" by simp
  with rows_all_units [OF assms(1), of "\<lambda>r. True" "\<lambda>r. r" file_rows]
  have full: "concat (map rows (map (work_unit (\<lambda>r. True) (\<lambda>r. r) bs file_rows)
                 [0..<num_units (length file_rows) bs])) = file_rows"
    by (simp only:)
  show ?thesis
    unfolding d
    by (intro conjI refl first_rows_sorted rows_all_units [OF assms(1)] full)
qed

lemma demo_order:
  "distinct [2, 0, 1 :: nat] \<and> set [2, 0, 1] = {..<num_units (length demo_rows) 2}"
  by (auto simp: num_units_def demo_rows_def)

theorem scan_delivers_in_file_row_order_witness:
  "(0::nat) < 2 \<and> distinct [2, 0, 1 :: nat]
   \<and> set [2, 0, 1] = {..<num_units (length demo_rows) 2}
   \<and> scan_delivered (\<lambda>r. 2 < fst r) snd 2 demo_rows [2, 0, 1]
       = [\<lparr>first_row = 0, rows = []\<rparr>, \<lparr>first_row = 2, rows = [''c'', ''d'']\<rparr>,
          \<lparr>first_row = 4, rows = [''e'']\<rparr>]
   \<and> concat (map rows (scan_delivered (\<lambda>r. True) (\<lambda>r. r) 2 demo_rows [2, 0, 1]))
       = demo_rows"
proof -
  have p: "(0::nat) < 2" by simp
  have n: "num_units (length demo_rows) 2 = Suc (Suc (Suc 0))"
    by (simp add: num_units_def demo_rows_def)
  have u: "map (work_unit (\<lambda>r. 2 < fst r) snd 2 demo_rows) [0..<Suc (Suc (Suc 0))]
             = [\<lparr>first_row = 0, rows = []\<rparr>, \<lparr>first_row = 2, rows = [''c'', ''d'']\<rparr>,
                \<lparr>first_row = 4, rows = [''e'']\<rparr>]"
    by (simp add: work_unit_def demo_rows_def)
  note t = scan_delivers_in_file_row_order
    [OF p demo_order [THEN conjunct1] demo_order [THEN conjunct2],
      of "\<lambda>r. 2 < fst r" snd, unfolded n]
  from t have "scan_delivered (\<lambda>r. 2 < fst r) snd 2 demo_rows [2, 0, 1]
       = [\<lparr>first_row = 0, rows = []\<rparr>, \<lparr>first_row = 2, rows = [''c'', ''d'']\<rparr>,
          \<lparr>first_row = 4, rows = [''e'']\<rparr>]"
    unfolding u by (rule conjunct1)
  moreover
  have "concat (map rows (scan_delivered (\<lambda>r. True) (\<lambda>r. r) 2 demo_rows [2, 0, 1]))
       = demo_rows"
    by (rule t [THEN conjunct2, THEN conjunct2, THEN conjunct2])
  ultimately show ?thesis using p demo_order by blast
qed

end
